theory Spec2Isabelle
  imports Complex_Main
begin

section \<open>Blade harmonics: the data generator of App.tsx\<close>

text \<open>
  The program is a React component whose only computation is the closure
  \<open>generateData\<close> (and the tick formatter \<open>formatXAxis\<close>). The closure reads
  the component state \<open>numBlades\<close>, \<open>phaseShift\<close>, \<open>resolution\<close>,
  \<open>subtractMean\<close>; the embedding passes them as arguments.

  Numbers. \<open>numBlades\<close> and \<open>resolution\<close> are set through \<open>parseInt\<close> and are
  modelled as \<open>int\<close>. In \<open>generateData\<close> every other JavaScript number is
  modelled as a \<open>real\<close>: \<open>Math.PI\<close> is \<open>pi\<close>, \<open>Math.sin\<close> is \<open>sin\<close>,
  \<open>Math.pow(x, 2)\<close> is \<open>x\<^sup>2\<close>. This is exact arithmetic: rounding of IEEE
  doubles is not part of that model. The order of the additions of the source
  is kept all the same (sums are accumulated from \<open>0\<close>, blade after blade, as
  the loops do). \<open>formatXAxis\<close> compares a quotient of doubles with five
  doubles by \<open>===\<close>; there the rounding decides the result, and its embedding
  rounds as IEEE 754 does.

  A loop \<open>for (let i = 0; i < resolution; i++)\<close> runs its body for
  \<open>i = 0, 1, \<dots>\<close> while \<open>i < resolution\<close>, that is over \<open>[0..<nat resolution]\<close>:
  not at all when \<open>resolution \<le> 0\<close>. The source has no \<open>throw\<close> and no guard on
  its inputs, so the model has no error value: every call returns a result.
\<close>

subsection \<open>Data\<close>

text \<open>
  \<open>interface DataPoint { theta: number; thetaLabel: string; [key: string]: number | string }\<close>.
  The two declared fields are record fields. The keys written through the index
  signature are \<open>`blade${b}`\<close> for a loop counter \<open>b\<close> and \<open>'sum'\<close>; they are the
  constructors of \<open>key\<close>, and the object's dynamic part is a map from keys to
  numbers that the assignments update in the order of the source.
\<close>

datatype key = BladeKey nat | SumKey

record DataPoint =
  theta :: real
  thetaLabel :: string
  props :: "key \<rightharpoonup> real"

text \<open>The returned object \<open>{ sinData, sin2Data }\<close>.\<close>

record Datasets =
  sinData :: "DataPoint list"
  sin2Data :: "DataPoint list"

subsection \<open>Strings: the label of a sample\<close>

text \<open>
  \<open>string\<close> is a list of bytes; the one non-ASCII character of the program,
  GREEK SMALL LETTER PI (U+03C0), is written as its UTF-8 encoding.
\<close>

definition pi_str :: string where
  "pi_str = [CHR 0xCF, CHR 0x80]"

definition digit_char :: "nat \<Rightarrow> char" where
  "digit_char d = char_of (48 + d)"

fun decimal :: "nat \<Rightarrow> string" where
  "decimal n = (if n < 10 then [digit_char n] else decimal (n div 10) @ [digit_char (n mod 10)])"

declare decimal.simps [simp del]

text \<open>
  \<open>Number.prototype.toFixed(2)\<close> for a number of magnitude below \<open>10\<^sup>2\<^sup>1\<close> (a label
  is the \<open>toFixed\<close> of \<open>theta / Math.PI\<close>, which lies in \<open>[0, 2)\<close>): a negative
  number gives \<open>-\<close> and the digits of its negation; \<open>n\<close> is the integer for which
  \<open>n / 100 - x\<close> is closest to zero, the larger one on a tie; its decimal digits
  are padded on the left with zeros to three at least, and the point goes before
  the last two.
\<close>

definition toFixed2 :: "real \<Rightarrow> string" where
  "toFixed2 x =
     (let s = (if x < 0 then ''-'' else '''');
          y = (if x < 0 then - x else x);
          n = nat \<lfloor>y * 100 + 1 / 2\<rfloor>;
          m = decimal n;
          m' = (if length m \<le> 2 then replicate (3 - length m) (CHR ''0'') @ m else m);
          k = length m'
      in s @ take (k - 2) m' @ ''.'' @ drop (k - 2) m')"

subsection \<open>generateData, current version (App.tsx)\<close>

text \<open>
  The working arrays of the first pass. \<open>bladeDataSin[b][i]\<close> is
  \<open>bladeDataSin st ! b ! i\<close>.
\<close>

record pass1 =
  bladeDataSin :: "real list list"
  bladeDataSin2 :: "real list list"
  sinSums :: "real list"
  sin2Sums :: "real list"

text \<open>
  Lines 31 to 34: \<open>sinSums\<close> and \<open>sin2Sums\<close> get one \<open>0\<close> per sample index.
\<close>

definition init_sums :: "int \<Rightarrow> pass1" where
  "init_sums resolution =
     fold (\<lambda>i st. st\<lparr>sinSums := sinSums st @ [0], sin2Sums := sin2Sums st @ [0]\<rparr>)
       [0..<nat resolution]
       \<lparr>bladeDataSin = [], bladeDataSin2 = [], sinSums = [], sin2Sums = []\<rparr>"

text \<open>
  Lines 41 to 51, the body of the inner loop for blade \<open>b\<close> and sample index \<open>i\<close>.
  The state is \<open>(bladeSin, bladeSin2, sinSums, sin2Sums)\<close>. The index \<open>i\<close> is below
  the length of \<open>sinSums\<close> whenever the body runs (both are bounded by
  \<open>resolution\<close>), so \<open>sinSums[i] += \<dots>\<close> never writes out of range.
\<close>

definition sample_step ::
  "int \<Rightarrow> real \<Rightarrow> int \<Rightarrow> nat \<Rightarrow> nat \<Rightarrow>
   real list \<times> real list \<times> real list \<times> real list \<Rightarrow>
   real list \<times> real list \<times> real list \<times> real list" where
  "sample_step numBlades phaseShift resolution b i =
     (\<lambda>(bladeSin, bladeSin2, sSums, s2Sums).
        let theta = (2 * pi * real i) / real_of_int resolution;
            phase = phaseShift + (2 * pi * real b) / real_of_int numBlades;
            sinValue = sin (theta + phase);
            sin2Value = (sin (theta + phase))\<^sup>2
        in (bladeSin @ [sinValue], bladeSin2 @ [sin2Value],
            sSums[i := sSums ! i + sinValue], s2Sums[i := s2Sums ! i + sin2Value]))"

text \<open>Lines 37 to 55, the body of the loop over the blades.\<close>

definition blade_step :: "int \<Rightarrow> real \<Rightarrow> int \<Rightarrow> nat \<Rightarrow> pass1 \<Rightarrow> pass1" where
  "blade_step numBlades phaseShift resolution b st =
     (case fold (sample_step numBlades phaseShift resolution b) [0..<nat resolution]
             ([], [], sinSums st, sin2Sums st) of
        (bladeSin, bladeSin2, sSums, s2Sums) \<Rightarrow>
          \<lparr>bladeDataSin = bladeDataSin st @ [bladeSin],
           bladeDataSin2 = bladeDataSin2 st @ [bladeSin2],
           sinSums = sSums, sin2Sums = s2Sums\<rparr>)"

text \<open>Lines 26 to 55: the first pass.\<close>

definition first_pass :: "int \<Rightarrow> real \<Rightarrow> int \<Rightarrow> pass1" where
  "first_pass numBlades phaseShift resolution =
     fold (blade_step numBlades phaseShift resolution) [0..<nat numBlades]
       (init_sums resolution)"

text \<open>\<open>xs.reduce((sum, val) => sum + val, 0)\<close>.\<close>

definition reduce_add :: "real list \<Rightarrow> real" where
  "reduce_add xs = foldl (\<lambda>sum val. sum + val) 0 xs"

text \<open>
  Lines 58 to 75: the means. Without \<open>subtractMean\<close> the two arrays stay empty and
  the two scalars stay \<open>0\<close>. The division is by \<open>resolution\<close>; for
  \<open>resolution = 0\<close> JavaScript yields \<open>NaN\<close> where HOL yields \<open>0\<close>, but then the
  second pass has no iteration and reads none of these values.
\<close>

record means =
  sinBladeMeans :: "real list"
  sin2BladeMeans :: "real list"
  sinSumMean :: real
  sin2SumMean :: real

definition compute_means :: "int \<Rightarrow> int \<Rightarrow> bool \<Rightarrow> pass1 \<Rightarrow> means" where
  "compute_means numBlades resolution subtractMean st =
     (let m0 = \<lparr>sinBladeMeans = [], sin2BladeMeans = [], sinSumMean = 0, sin2SumMean = 0\<rparr>
      in if subtractMean then
           (let m1 = fold (\<lambda>b m.
                        let sinMean = reduce_add (bladeDataSin st ! b) / real_of_int resolution;
                            sin2Mean = reduce_add (bladeDataSin2 st ! b) / real_of_int resolution
                        in m\<lparr>sinBladeMeans := sinBladeMeans m @ [sinMean],
                             sin2BladeMeans := sin2BladeMeans m @ [sin2Mean]\<rparr>)
                      [0..<nat numBlades] m0
            in m1\<lparr>sinSumMean := reduce_add (sinSums st) / real_of_int resolution,
                  sin2SumMean := reduce_add (sin2Sums st) / real_of_int resolution\<rparr>)
         else m0)"

text \<open>
  Lines 85 to 92, the body of the loop that fills the per-blade keys of the two
  points of sample \<open>i\<close>.
\<close>

definition point_step ::
  "bool \<Rightarrow> pass1 \<Rightarrow> means \<Rightarrow> nat \<Rightarrow> nat \<Rightarrow> DataPoint \<times> DataPoint \<Rightarrow> DataPoint \<times> DataPoint" where
  "point_step subtractMean st m i b =
     (\<lambda>(sinPoint, sin2Point).
        (sinPoint\<lparr>props := (props sinPoint)(BladeKey b \<mapsto>
             (if subtractMean then bladeDataSin st ! b ! i - sinBladeMeans m ! b
              else bladeDataSin st ! b ! i))\<rparr>,
         sin2Point\<lparr>props := (props sin2Point)(BladeKey b \<mapsto>
             (if subtractMean then bladeDataSin2 st ! b ! i - sin2BladeMeans m ! b
              else bladeDataSin2 st ! b ! i))\<rparr>))"

text \<open>Lines 78 to 99, the body of the second pass for sample \<open>i\<close>.\<close>

definition assemble_step ::
  "int \<Rightarrow> int \<Rightarrow> bool \<Rightarrow> pass1 \<Rightarrow> means \<Rightarrow> nat \<Rightarrow> Datasets \<Rightarrow> Datasets" where
  "assemble_step numBlades resolution subtractMean st m i out =
     (let theta = (2 * pi * real i) / real_of_int resolution;
          thetaLabel = toFixed2 (theta / pi) @ pi_str;
          sinPoint0 = \<lparr>theta = theta, thetaLabel = thetaLabel, props = Map.empty\<rparr>;
          sin2Point0 = \<lparr>theta = theta, thetaLabel = thetaLabel, props = Map.empty\<rparr>
      in case fold (point_step subtractMean st m i) [0..<nat numBlades] (sinPoint0, sin2Point0) of
           (sinPoint1, sin2Point1) \<Rightarrow>
             (let sinPoint = sinPoint1\<lparr>props := (props sinPoint1)(SumKey \<mapsto>
                    (if subtractMean then sinSums st ! i - sinSumMean m else sinSums st ! i))\<rparr>;
                  sin2Point = sin2Point1\<lparr>props := (props sin2Point1)(SumKey \<mapsto>
                    (if subtractMean then sin2Sums st ! i - sin2SumMean m else sin2Sums st ! i))\<rparr>
              in \<lparr>sinData = sinData out @ [sinPoint], sin2Data = sin2Data out @ [sin2Point]\<rparr>))"

text \<open>Lines 21 to 102.\<close>

definition generateData :: "int \<Rightarrow> real \<Rightarrow> int \<Rightarrow> bool \<Rightarrow> Datasets" where
  "generateData numBlades phaseShift resolution subtractMean =
     (let st = first_pass numBlades phaseShift resolution;
          m = compute_means numBlades resolution subtractMean st
      in fold (assemble_step numBlades resolution subtractMean st m) [0..<nat resolution]
           \<lparr>sinData = [], sin2Data = []\<rparr>)"

subsection \<open>generateData, earlier version (no mean subtraction)\<close>

text \<open>
  Lines 34 to 44 of the earlier file, the body of the loop over the blades for
  one sample, whose \<open>theta\<close> is the argument \<open>angle\<close>; the state is
  \<open>(sinPoint, sin2Point, sinSum, sin2Sum)\<close>.
\<close>

definition old_blade_step ::
  "int \<Rightarrow> real \<Rightarrow> real \<Rightarrow> nat \<Rightarrow> DataPoint \<times> DataPoint \<times> real \<times> real \<Rightarrow>
   DataPoint \<times> DataPoint \<times> real \<times> real" where
  "old_blade_step numBlades phaseShift angle b =
     (\<lambda>(sinPoint, sin2Point, sinSum, sin2Sum).
        let phase = phaseShift + (2 * pi * real b) / real_of_int numBlades;
            sinValue = sin (angle + phase);
            sin2Value = (sin (angle + phase))\<^sup>2
        in (sinPoint\<lparr>props := (props sinPoint)(BladeKey b \<mapsto> sinValue)\<rparr>,
            sin2Point\<lparr>props := (props sin2Point)(BladeKey b \<mapsto> sin2Value)\<rparr>,
            sinSum + sinValue, sin2Sum + sin2Value))"

text \<open>Lines 24 to 51 of the earlier file, the body of the loop over the samples.\<close>

definition old_sample_step :: "int \<Rightarrow> real \<Rightarrow> int \<Rightarrow> nat \<Rightarrow> Datasets \<Rightarrow> Datasets" where
  "old_sample_step numBlades phaseShift resolution i out =
     (let theta = (2 * pi * real i) / real_of_int resolution;
          thetaLabel = toFixed2 (theta / pi) @ pi_str;
          sinPoint0 = \<lparr>theta = theta, thetaLabel = thetaLabel, props = Map.empty\<rparr>;
          sin2Point0 = \<lparr>theta = theta, thetaLabel = thetaLabel, props = Map.empty\<rparr>
      in case fold (old_blade_step numBlades phaseShift theta) [0..<nat numBlades]
                (sinPoint0, sin2Point0, 0, 0) of
           (sinPoint1, sin2Point1, sinSum, sin2Sum) \<Rightarrow>
             \<lparr>sinData = sinData out @ [sinPoint1\<lparr>props := (props sinPoint1)(SumKey \<mapsto> sinSum)\<rparr>],
              sin2Data = sin2Data out @ [sin2Point1\<lparr>props := (props sin2Point1)(SumKey \<mapsto> sin2Sum)\<rparr>]\<rparr>)"

text \<open>Lines 20 to 54 of the earlier file.\<close>

definition generateData_old :: "int \<Rightarrow> real \<Rightarrow> int \<Rightarrow> Datasets" where
  "generateData_old numBlades phaseShift resolution =
     fold (old_sample_step numBlades phaseShift resolution) [0..<nat resolution]
       \<lparr>sinData = [], sin2Data = []\<rparr>"

subsection \<open>IEEE 754 doubles\<close>

text \<open>
  A finite double is a real number of the form \<open>n * 2\<^sup>e\<^sup>-\<^sup>5\<^sup>2\<close> with an integer \<open>n\<close> of
  magnitude below \<open>2\<^sup>5\<^sup>3\<close> and an exponent \<open>e\<close> from \<open>-1022\<close> on. \<open>expo x\<close> is the
  exponent of the binade of \<open>x\<close> (\<open>-1022\<close> for a subnormal \<open>x\<close>), \<open>ulp x\<close> the
  spacing of the doubles there, and \<open>rd x\<close> the double nearest to \<open>x\<close>, the one
  with the even \<open>n\<close> on a tie: the rounding of every arithmetic operation of
  JavaScript. Overflow to an infinity is not modelled (no quotient computed
  below comes near \<open>2\<^sup>1\<^sup>0\<^sup>2\<^sup>4\<close>), and \<open>-0\<close> is \<open>0\<close>.
\<close>

definition emin :: int where
  "emin = - 1022"

definition expo :: "real \<Rightarrow> int" where
  "expo x = max \<lfloor>log 2 \<bar>x\<bar>\<rfloor> emin"

definition ulp :: "real \<Rightarrow> real" where
  "ulp x = 2 powi (expo x - 52)"

definition round_even :: "real \<Rightarrow> int" where
  "round_even y =
     (let f = \<lfloor>y\<rfloor>; r = y - of_int f
      in if r < 1 / 2 then f else if 1 / 2 < r then f + 1 else if even f then f else f + 1)"

definition rd :: "real \<Rightarrow> real" where
  "rd x = (if x = 0 then 0 else of_int (round_even (x / ulp x)) * ulp x)"

text \<open>
  \<open>Math.PI\<close> is the double \<open>3.141592653589793\<close>, that is
  \<open>884279719003555 / 2\<^sup>4\<^sup>8\<close>. \<open>x * y\<close> and \<open>x / y\<close> on doubles are the rounded
  product and quotient. A real number is a finite double when rounding leaves
  it alone.
\<close>

definition MathPI :: real where
  "MathPI = 884279719003555 / 2 ^ 48"

definition fmul :: "real \<Rightarrow> real \<Rightarrow> real" where
  "fmul x y = rd (x * y)"

definition fdiv :: "real \<Rightarrow> real \<Rightarrow> real" where
  "fdiv x y = rd (x / y)"

definition is_double :: "real \<Rightarrow> bool" where
  "is_double v \<longleftrightarrow> rd v = v"

subsection \<open>formatXAxis\<close>

text \<open>
  Lines 107 to 115; \<open>===\<close> on two numbers is equality. The argument is a finite
  double (for \<open>NaN\<close> and the infinities every comparison fails and the result
  is the empty string).
\<close>

definition formatXAxis :: "real \<Rightarrow> string" where
  "formatXAxis v =
     (let piValue = fdiv v MathPI
      in if piValue = 0 then ''0''
         else if piValue = 0.5 then pi_str @ ''/2''
         else if piValue = 1 then pi_str
         else if piValue = 1.5 then ''3'' @ pi_str @ ''/2''
         else if piValue = 2 then ''2'' @ pi_str
         else '''')"

text \<open>Lines 184 and 231: the tick positions handed to the formatter.\<close>

definition ticks :: "real list" where
  "ticks = [0, fdiv MathPI 2, MathPI, fdiv (fmul 3 MathPI) 2, fmul 2 MathPI]"

subsection \<open>Closed forms of the loops\<close>

text \<open>
  The functions below are not code of the program: they name what its loops
  compute, and the lemmas of the next sections prove that they do.
  \<open>raw_sin \<dots> i b\<close> is the value \<open>sinValue\<close> of the first pass for sample \<open>i\<close> and
  blade \<open>b\<close>; \<open>blade_props B f m\<close> is the map \<open>m\<close> after the keys of the blades
  below \<open>B\<close> were set to the values \<open>f\<close>; \<open>sin_value\<close>, \<open>sin2_value\<close>,
  \<open>sin_total\<close> and \<open>sin2_total\<close> are the numbers stored in a point, and
  \<open>point_of\<close> is the finished point.
\<close>

definition raw_sin :: "int \<Rightarrow> real \<Rightarrow> int \<Rightarrow> nat \<Rightarrow> nat \<Rightarrow> real" where
  "raw_sin numBlades phaseShift resolution i b =
     sin ((2 * pi * real i) / real_of_int resolution
          + (phaseShift + (2 * pi * real b) / real_of_int numBlades))"

definition blade_props :: "nat \<Rightarrow> (nat \<Rightarrow> real) \<Rightarrow> (key \<rightharpoonup> real) \<Rightarrow> (key \<rightharpoonup> real)" where
  "blade_props B f m = (\<lambda>k. case k of BladeKey b \<Rightarrow> if b < B then Some (f b) else m k | SumKey \<Rightarrow> m k)"

definition sin_value :: "int \<Rightarrow> real \<Rightarrow> int \<Rightarrow> bool \<Rightarrow> nat \<Rightarrow> nat \<Rightarrow> real" where
  "sin_value nb ph res sm i b =
     (if sm then raw_sin nb ph res i b - (\<Sum>j<nat res. raw_sin nb ph res j b) / real_of_int res
      else raw_sin nb ph res i b)"

definition sin2_value :: "int \<Rightarrow> real \<Rightarrow> int \<Rightarrow> bool \<Rightarrow> nat \<Rightarrow> nat \<Rightarrow> real" where
  "sin2_value nb ph res sm i b =
     (if sm then (raw_sin nb ph res i b)\<^sup>2 - (\<Sum>j<nat res. (raw_sin nb ph res j b)\<^sup>2) / real_of_int res
      else (raw_sin nb ph res i b)\<^sup>2)"

definition sin_total :: "int \<Rightarrow> real \<Rightarrow> int \<Rightarrow> bool \<Rightarrow> nat \<Rightarrow> real" where
  "sin_total nb ph res sm i =
     (if sm then (\<Sum>b<nat nb. raw_sin nb ph res i b)
                 - (\<Sum>j<nat res. \<Sum>b<nat nb. raw_sin nb ph res j b) / real_of_int res
      else (\<Sum>b<nat nb. raw_sin nb ph res i b))"

definition sin2_total :: "int \<Rightarrow> real \<Rightarrow> int \<Rightarrow> bool \<Rightarrow> nat \<Rightarrow> real" where
  "sin2_total nb ph res sm i =
     (if sm then (\<Sum>b<nat nb. (raw_sin nb ph res i b)\<^sup>2)
                 - (\<Sum>j<nat res. \<Sum>b<nat nb. (raw_sin nb ph res j b)\<^sup>2) / real_of_int res
      else (\<Sum>b<nat nb. (raw_sin nb ph res i b)\<^sup>2))"

definition point_of :: "int \<Rightarrow> int \<Rightarrow> nat \<Rightarrow> (nat \<Rightarrow> real) \<Rightarrow> real \<Rightarrow> DataPoint" where
  "point_of nb res i f s =
     \<lparr>theta = (2 * pi * real i) / real_of_int res,
      thetaLabel = toFixed2 ((2 * pi * real i) / real_of_int res / pi) @ pi_str,
      props = (blade_props (nat nb) f Map.empty)(SumKey \<mapsto> s)\<rparr>"

section \<open>What the loops compute\<close>

lemma init_sums_loop:
  "fold (\<lambda>i st. st\<lparr>sinSums := sinSums st @ [0], sin2Sums := sin2Sums st @ [0]\<rparr>) [0..<k] s
   = s\<lparr>sinSums := sinSums s @ replicate k 0, sin2Sums := sin2Sums s @ replicate k 0\<rparr>"
  by (induction k) (simp_all add: replicate_append_same)

lemma init_sums_eq:
  "init_sums resolution =
     \<lparr>bladeDataSin = [], bladeDataSin2 = [],
      sinSums = replicate (nat resolution) 0, sin2Sums = replicate (nat resolution) 0\<rparr>"
  by (simp add: init_sums_def init_sums_loop)

lemma update_after_prefix:
  assumes "k < length ys" "length xs = k"
  shows "(xs @ drop k ys)[k := v] = (xs @ [v]) @ drop (Suc k) ys"
proof -
  have "drop k ys = ys ! k # drop (Suc k) ys"
    using assms(1) by (simp add: Cons_nth_drop_Suc)
  then show ?thesis using assms(2) by (simp add: list_update_append)
qed

lemma nth_after_prefix:
  assumes "k < length ys" "length xs = k"
  shows "(xs @ drop k ys) ! k = ys ! k"
  using assms by (simp add: nth_append)

lemma sample_step_apply:
  "sample_step nb ph res b i (bs, bs2, ss, ss2) =
     (bs @ [raw_sin nb ph res i b], bs2 @ [(raw_sin nb ph res i b)\<^sup>2],
      ss[i := ss ! i + raw_sin nb ph res i b],
      ss2[i := ss2 ! i + (raw_sin nb ph res i b)\<^sup>2])"
  by (simp add: sample_step_def raw_sin_def Let_def)

lemma fold_upt_Suc: "fold f [0..<Suc k] s = f k (fold f [0..<k] s)"
  by simp

lemma sample_loop:
  assumes "k \<le> length ss" "k \<le> length ss2"
  shows "fold (sample_step nb ph res b) [0..<k] ([], [], ss, ss2) =
     (map (\<lambda>i. raw_sin nb ph res i b) [0..<k],
      map (\<lambda>i. (raw_sin nb ph res i b)\<^sup>2) [0..<k],
      map (\<lambda>i. ss ! i + raw_sin nb ph res i b) [0..<k] @ drop k ss,
      map (\<lambda>i. ss2 ! i + (raw_sin nb ph res i b)\<^sup>2) [0..<k] @ drop k ss2)"
  using assms
proof (induction k)
  case 0
  show ?case by simp
next
  case (Suc k)
  then have lt: "k < length ss" "k < length ss2" by simp_all
  from Suc have IH: "fold (sample_step nb ph res b) [0..<k] ([], [], ss, ss2) =
     (map (\<lambda>i. raw_sin nb ph res i b) [0..<k],
      map (\<lambda>i. (raw_sin nb ph res i b)\<^sup>2) [0..<k],
      map (\<lambda>i. ss ! i + raw_sin nb ph res i b) [0..<k] @ drop k ss,
      map (\<lambda>i. ss2 ! i + (raw_sin nb ph res i b)\<^sup>2) [0..<k] @ drop k ss2)"
    by simp
  show ?case
    using lt
    by (simp only: fold_upt_Suc IH sample_step_apply)
       (simp add: update_after_prefix nth_after_prefix)
qed

lemma blade_step_eq:
  assumes "length (sinSums st) = nat res" "length (sin2Sums st) = nat res"
  shows "blade_step nb ph res b st =
     \<lparr>bladeDataSin = bladeDataSin st @ [map (\<lambda>i. raw_sin nb ph res i b) [0..<nat res]],
      bladeDataSin2 = bladeDataSin2 st @ [map (\<lambda>i. (raw_sin nb ph res i b)\<^sup>2) [0..<nat res]],
      sinSums = map (\<lambda>i. sinSums st ! i + raw_sin nb ph res i b) [0..<nat res],
      sin2Sums = map (\<lambda>i. sin2Sums st ! i + (raw_sin nb ph res i b)\<^sup>2) [0..<nat res]\<rparr>"
  using assms by (simp add: blade_step_def sample_loop)

lemma blade_loop:
  "fold (blade_step nb ph res) [0..<B] (init_sums res) =
     \<lparr>bladeDataSin = map (\<lambda>b. map (\<lambda>i. raw_sin nb ph res i b) [0..<nat res]) [0..<B],
      bladeDataSin2 = map (\<lambda>b. map (\<lambda>i. (raw_sin nb ph res i b)\<^sup>2) [0..<nat res]) [0..<B],
      sinSums = map (\<lambda>i. \<Sum>b<B. raw_sin nb ph res i b) [0..<nat res],
      sin2Sums = map (\<lambda>i. \<Sum>b<B. (raw_sin nb ph res i b)\<^sup>2) [0..<nat res]\<rparr>"
proof (induction B)
  case 0
  show ?case by (simp add: init_sums_eq map_replicate_const)
next
  case (Suc B)
  show ?case
    by (simp only: fold_upt_Suc Suc.IH) (simp add: blade_step_eq cong: map_cong)
qed

lemma first_pass_eq:
  "first_pass nb ph res =
     \<lparr>bladeDataSin = map (\<lambda>b. map (\<lambda>i. raw_sin nb ph res i b) [0..<nat res]) [0..<nat nb],
      bladeDataSin2 = map (\<lambda>b. map (\<lambda>i. (raw_sin nb ph res i b)\<^sup>2) [0..<nat res]) [0..<nat nb],
      sinSums = map (\<lambda>i. \<Sum>b<nat nb. raw_sin nb ph res i b) [0..<nat res],
      sin2Sums = map (\<lambda>i. \<Sum>b<nat nb. (raw_sin nb ph res i b)\<^sup>2) [0..<nat res]\<rparr>"
  by (simp only: first_pass_def blade_loop)

lemma reduce_add_acc: "foldl (\<lambda>sum val. sum + val) a xs = a + sum_list xs"
  by (induction xs arbitrary: a) (simp_all add: add.assoc)

lemma reduce_add_upt: "reduce_add (map f [0..<n]) = (\<Sum>i<n. f i)"
  by (simp add: reduce_add_def reduce_add_acc interv_sum_list_conv_sum_set_nat atLeast0LessThan)

lemma means_loop:
  "fold (\<lambda>b m. m\<lparr>sinBladeMeans := sinBladeMeans m @ [f b],
                    sin2BladeMeans := sin2BladeMeans m @ [g b]\<rparr>) [0..<B] m0
   = m0\<lparr>sinBladeMeans := sinBladeMeans m0 @ map f [0..<B],
         sin2BladeMeans := sin2BladeMeans m0 @ map g [0..<B]\<rparr>"
  by (induction B) simp_all

lemma compute_means_eq:
  "compute_means nb res sm (first_pass nb ph res) =
     (if sm then
        \<lparr>sinBladeMeans = map (\<lambda>b. (\<Sum>i<nat res. raw_sin nb ph res i b) / real_of_int res) [0..<nat nb],
         sin2BladeMeans = map (\<lambda>b. (\<Sum>i<nat res. (raw_sin nb ph res i b)\<^sup>2) / real_of_int res) [0..<nat nb],
         sinSumMean = (\<Sum>i<nat res. \<Sum>b<nat nb. raw_sin nb ph res i b) / real_of_int res,
         sin2SumMean = (\<Sum>i<nat res. \<Sum>b<nat nb. (raw_sin nb ph res i b)\<^sup>2) / real_of_int res\<rparr>
      else \<lparr>sinBladeMeans = [], sin2BladeMeans = [], sinSumMean = 0, sin2SumMean = 0\<rparr>)"
  by (simp add: compute_means_def Let_def means_loop first_pass_eq reduce_add_upt cong: map_cong)

lemma blade_props_0: "blade_props 0 f m = m"
  by (rule ext) (simp add: blade_props_def split: key.split)

lemma blade_props_Suc:
  "v = f B \<Longrightarrow> (blade_props B f m)(BladeKey B \<mapsto> v) = blade_props (Suc B) f m"
  by (rule ext) (simp add: blade_props_def less_Suc_eq split: key.split)

lemma point_loop:
  "fold (point_step sm st m i) [0..<B] (p, q) =
     (p\<lparr>props := blade_props B
          (\<lambda>b. if sm then bladeDataSin st ! b ! i - sinBladeMeans m ! b else bladeDataSin st ! b ! i)
          (props p)\<rparr>,
      q\<lparr>props := blade_props B
          (\<lambda>b. if sm then bladeDataSin2 st ! b ! i - sin2BladeMeans m ! b else bladeDataSin2 st ! b ! i)
          (props q)\<rparr>)"
proof (induction B)
  case 0
  show ?case by (simp add: blade_props_0)
next
  case (Suc B)
  show ?case
    by (simp only: fold_upt_Suc Suc.IH) (simp add: point_step_def blade_props_Suc)
qed

lemma old_blade_loop:
  "fold (old_blade_step nb ph th) [0..<B] (p, q, s, s2) =
     (p\<lparr>props := blade_props B
          (\<lambda>b. sin (th + (ph + (2 * pi * real b) / real_of_int nb))) (props p)\<rparr>,
      q\<lparr>props := blade_props B
          (\<lambda>b. (sin (th + (ph + (2 * pi * real b) / real_of_int nb)))\<^sup>2) (props q)\<rparr>,
      s + (\<Sum>b<B. sin (th + (ph + (2 * pi * real b) / real_of_int nb))),
      s2 + (\<Sum>b<B. (sin (th + (ph + (2 * pi * real b) / real_of_int nb)))\<^sup>2))"
proof (induction B)
  case 0
  show ?case by (simp add: blade_props_0)
next
  case (Suc B)
  show ?case
    by (simp only: fold_upt_Suc Suc.IH) (simp add: old_blade_step_def Let_def blade_props_Suc)
qed

lemma blade_props_cong:
  "(\<And>b. b < B \<Longrightarrow> f b = g b) \<Longrightarrow> blade_props B f m = blade_props B g m"
  by (rule ext) (simp add: blade_props_def split: key.split)

lemma assemble_step_eq:
  assumes i: "i < nat res"
  shows "assemble_step nb res sm (first_pass nb ph res)
           (compute_means nb res sm (first_pass nb ph res)) i out =
     \<lparr>sinData = sinData out @ [point_of nb res i (sin_value nb ph res sm i) (sin_total nb ph res sm i)],
      sin2Data = sin2Data out @ [point_of nb res i (sin2_value nb ph res sm i) (sin2_total nb ph res sm i)]\<rparr>"
proof -
  let ?st = "first_pass nb ph res"
  let ?m = "compute_means nb res sm ?st"
  have v: "blade_props (nat nb)
            (\<lambda>b. if sm then bladeDataSin ?st ! b ! i - sinBladeMeans ?m ! b else bladeDataSin ?st ! b ! i)
            Map.empty
         = blade_props (nat nb) (sin_value nb ph res sm i) Map.empty"
    using i by (intro blade_props_cong) (simp only: compute_means_eq, simp add: first_pass_eq sin_value_def)
  have v2: "blade_props (nat nb)
            (\<lambda>b. if sm then bladeDataSin2 ?st ! b ! i - sin2BladeMeans ?m ! b else bladeDataSin2 ?st ! b ! i)
            Map.empty
         = blade_props (nat nb) (sin2_value nb ph res sm i) Map.empty"
    using i by (intro blade_props_cong) (simp only: compute_means_eq, simp add: first_pass_eq sin2_value_def)
  have s: "(if sm then sinSums ?st ! i - sinSumMean ?m else sinSums ?st ! i) = sin_total nb ph res sm i"
    using i by (simp only: compute_means_eq, simp add: first_pass_eq sin_total_def)
  have s2: "(if sm then sin2Sums ?st ! i - sin2SumMean ?m else sin2Sums ?st ! i) = sin2_total nb ph res sm i"
    using i by (simp only: compute_means_eq, simp add: first_pass_eq sin2_total_def)
  show ?thesis
    unfolding assemble_step_def Let_def point_loop
    by (simp only: prod.case DataPoint.simps v v2 s s2 point_of_def)
qed

lemma assemble_loop:
  assumes "k \<le> nat res"
  shows "fold (assemble_step nb res sm (first_pass nb ph res)
           (compute_means nb res sm (first_pass nb ph res))) [0..<k] \<lparr>sinData = [], sin2Data = []\<rparr> =
     \<lparr>sinData = map (\<lambda>i. point_of nb res i (sin_value nb ph res sm i) (sin_total nb ph res sm i)) [0..<k],
      sin2Data = map (\<lambda>i. point_of nb res i (sin2_value nb ph res sm i) (sin2_total nb ph res sm i)) [0..<k]\<rparr>"
  using assms
proof (induction k)
  case 0
  show ?case by simp
next
  case (Suc k)
  then have "k < nat res" and IH: "fold (assemble_step nb res sm (first_pass nb ph res)
           (compute_means nb res sm (first_pass nb ph res))) [0..<k] \<lparr>sinData = [], sin2Data = []\<rparr> =
     \<lparr>sinData = map (\<lambda>i. point_of nb res i (sin_value nb ph res sm i) (sin_total nb ph res sm i)) [0..<k],
      sin2Data = map (\<lambda>i. point_of nb res i (sin2_value nb ph res sm i) (sin2_total nb ph res sm i)) [0..<k]\<rparr>"
    by simp_all
  then show ?case
    by (simp only: fold_upt_Suc IH assemble_step_eq) simp
qed

lemma generateData_eq:
  "generateData nb ph res sm =
     \<lparr>sinData = map (\<lambda>i. point_of nb res i (sin_value nb ph res sm i) (sin_total nb ph res sm i)) [0..<nat res],
      sin2Data = map (\<lambda>i. point_of nb res i (sin2_value nb ph res sm i) (sin2_total nb ph res sm i)) [0..<nat res]\<rparr>"
  by (simp only: generateData_def Let_def assemble_loop [OF order_refl])

lemma old_sample_step_eq:
  "old_sample_step nb ph res i out =
     \<lparr>sinData = sinData out @ [point_of nb res i (sin_value nb ph res False i) (sin_total nb ph res False i)],
      sin2Data = sin2Data out @ [point_of nb res i (sin2_value nb ph res False i) (sin2_total nb ph res False i)]\<rparr>"
proof -
  have v: "(\<lambda>b. sin (2 * pi * real i / real_of_int res + (ph + 2 * pi * real b / real_of_int nb)))
         = sin_value nb ph res False i"
    by (rule ext) (simp add: sin_value_def raw_sin_def)
  have v2: "(\<lambda>b. (sin (2 * pi * real i / real_of_int res + (ph + 2 * pi * real b / real_of_int nb)))\<^sup>2)
         = sin2_value nb ph res False i"
    by (rule ext) (simp add: sin2_value_def raw_sin_def)
  have s: "0 + (\<Sum>b<nat nb. sin_value nb ph res False i b) = sin_total nb ph res False i"
    by (simp add: sin_total_def sin_value_def)
  have s2: "0 + (\<Sum>b<nat nb. sin2_value nb ph res False i b) = sin2_total nb ph res False i"
    by (simp add: sin2_total_def sin2_value_def)
  show ?thesis
    unfolding old_sample_step_def Let_def old_blade_loop
    by (simp only: prod.case DataPoint.simps v v2 s s2 point_of_def)
qed

lemma old_loop:
  "fold (old_sample_step nb ph res) [0..<k] \<lparr>sinData = [], sin2Data = []\<rparr> =
     \<lparr>sinData = map (\<lambda>i. point_of nb res i (sin_value nb ph res False i) (sin_total nb ph res False i)) [0..<k],
      sin2Data = map (\<lambda>i. point_of nb res i (sin2_value nb ph res False i) (sin2_total nb ph res False i)) [0..<k]\<rparr>"
proof (induction k)
  case 0
  show ?case by simp
next
  case (Suc k)
  show ?case
    by (simp only: fold_upt_Suc Suc.IH) (simp add: old_sample_step_eq)
qed

lemma generateData_old_eq:
  "generateData_old nb ph res =
     \<lparr>sinData = map (\<lambda>i. point_of nb res i (sin_value nb ph res False i) (sin_total nb ph res False i)) [0..<nat res],
      sin2Data = map (\<lambda>i. point_of nb res i (sin2_value nb ph res False i) (sin2_total nb ph res False i)) [0..<nat res]\<rparr>"
  by (simp only: generateData_old_def old_loop)

subsection \<open>Reading the results\<close>

lemma sinData_nth:
  "i < nat res \<Longrightarrow> sinData (generateData nb ph res sm) ! i
     = point_of nb res i (sin_value nb ph res sm i) (sin_total nb ph res sm i)"
  by (simp add: generateData_eq)

lemma sin2Data_nth:
  "i < nat res \<Longrightarrow> sin2Data (generateData nb ph res sm) ! i
     = point_of nb res i (sin2_value nb ph res sm i) (sin2_total nb ph res sm i)"
  by (simp add: generateData_eq)

lemma point_of_theta: "theta (point_of nb res i f s) = 2 * pi * real i / real_of_int res"
  by (simp add: point_of_def)

lemma point_of_blade: "b < nat nb \<Longrightarrow> props (point_of nb res i f s) (BladeKey b) = Some (f b)"
  by (simp add: point_of_def blade_props_def)

lemma point_of_sum: "props (point_of nb res i f s) SumKey = Some s"
  by (simp add: point_of_def)

lemma point_of_props_cases:
  assumes "props (point_of nb res i f s) k = Some v"
  shows "(\<exists>b<nat nb. k = BladeKey b \<and> v = f b) \<or> (k = SumKey \<and> v = s)"
  using assms by (cases k) (auto simp: point_of_def blade_props_def split: if_splits)

lemma bladeDataSin_nth:
  "b < nat nb \<Longrightarrow> i < nat res \<Longrightarrow>
     bladeDataSin (first_pass nb ph res) ! b ! i = raw_sin nb ph res i b"
  by (simp add: first_pass_eq)

lemma bladeDataSin2_nth:
  "b < nat nb \<Longrightarrow> i < nat res \<Longrightarrow>
     bladeDataSin2 (first_pass nb ph res) ! b ! i = (raw_sin nb ph res i b)\<^sup>2"
  by (simp add: first_pass_eq)

lemma sinSums_nth:
  "i < nat res \<Longrightarrow> sinSums (first_pass nb ph res) ! i = (\<Sum>b<nat nb. raw_sin nb ph res i b)"
  by (simp add: first_pass_eq)


lemma raw_sin_flat:
  "raw_sin nb ph res i b =
     sin (2 * pi * real i / real_of_int res + ph + 2 * pi * real b / real_of_int nb)"
  by (simp add: raw_sin_def add.assoc)

subsection \<open>The label of angle zero\<close>

lemma digit_char_0: "digit_char 0 = CHR ''0''"
  unfolding digit_char_def by code_simp

lemma decimal_0: "decimal 0 = ''0''"
  by (subst decimal.simps) (simp add: digit_char_0)

lemma toFixed2_0: "toFixed2 0 = ''0.00''"
  by (simp add: toFixed2_def decimal_0)

section \<open>Equally spaced sines\<close>

lemma cis_progression_sum:
  assumes d: "cis d \<noteq> 1" and full: "cis (real n * d) = 1"
  shows "(\<Sum>k<n. cis (x + real k * d)) = 0"
proof -
  have "(\<Sum>k<n. cis (x + real k * d)) = (\<Sum>k<n. cis x * cis d ^ k)"
    by (simp add: DeMoivre cis_mult)
  also have "\<dots> = cis x * (\<Sum>k<n. cis d ^ k)"
    by (simp add: sum_distrib_left)
  also have "(\<Sum>k<n. cis d ^ k) = (1 - cis d ^ n) / (1 - cis d)"
    using d by (simp add: sum_gp_strict)
  also have "cis d ^ n = 1"
    using full by (simp add: DeMoivre)
  finally show ?thesis by simp
qed

lemma cis_neq_1:
  assumes "0 < d" "d < 2 * pi"
  shows "cis d \<noteq> 1"
proof
  assume "cis d = 1"
  then have "cos d = 1" by (simp add: complex_eq_iff)
  then obtain k :: int where k: "d = 2 * pi * of_int k"
    by (auto simp: cos_one_2pi_int)
  with assms have "0 < real_of_int k" "real_of_int k < 1"
    by (simp_all add: zero_less_mult_iff)
  then have "0 < k" "k < 1" by simp_all
  then show False by linarith
qed

lemma sin_blades_cancel:
  assumes "2 \<le> n"
  shows "(\<Sum>k<n. sin (x + 2 * pi * real k / real n)) = 0"
proof -
  let ?d = "2 * pi / real n"
  have "0 < ?d" "?d < 2 * pi" using assms by (simp_all add: field_simps)
  then have "cis ?d \<noteq> 1" by (rule cis_neq_1)
  moreover have "cis (real n * ?d) = 1" using assms by simp
  ultimately have "(\<Sum>k<n. cis (x + real k * ?d)) = 0" by (rule cis_progression_sum)
  then have "Im (\<Sum>k<n. cis (x + real k * ?d)) = 0" by simp
  then show ?thesis by (simp add: mult_ac)
qed



text \<open>The same two sums, over the raw values of one sample.\<close>

lemma sum_raw_sin_zero:
  assumes "2 \<le> nb"
  shows "(\<Sum>b<nat nb. raw_sin nb ph res i b) = 0"
proof -
  have n: "real_of_int nb = real (nat nb)" and n2: "2 \<le> nat nb"
    using assms by simp_all
  have "(\<Sum>b<nat nb. raw_sin nb ph res i b)
      = (\<Sum>b<nat nb. sin ((2 * pi * real i / real_of_int res + ph)
                            + 2 * pi * real b / real (nat nb)))"
    by (simp only: raw_sin_flat n)
  also have "\<dots> = 0"
    using n2 by (rule sin_blades_cancel)
  finally show ?thesis .
qed


section \<open>Rounding to a double\<close>

lemma round_even_diff: "\<bar>of_int (round_even y) - y\<bar> \<le> 1 / 2"
  unfolding round_even_def Let_def by (auto simp: abs_le_iff)

lemma round_even_of_int [simp]: "round_even (of_int n) = n"
  by (simp add: round_even_def)

lemma round_even_ge: "of_int a \<le> y \<Longrightarrow> a \<le> round_even y"
proof -
  assume "of_int a \<le> y"
  then have "a \<le> \<lfloor>y\<rfloor>" by (simp add: le_floor_iff)
  then show ?thesis unfolding round_even_def Let_def by auto
qed

lemma round_even_le: "y \<le> of_int b \<Longrightarrow> round_even y \<le> b"
proof -
  assume y: "y \<le> of_int b"
  show ?thesis
  proof (cases "y = of_int b")
    case True
    then show ?thesis by simp
  next
    case False
    with y have "y < of_int b" by simp
    then have "\<lfloor>y\<rfloor> < b" by (simp add: floor_less_iff)
    then show ?thesis unfolding round_even_def Let_def by auto
  qed
qed

lemma two_powi_pos [simp]: "0 < (2::real) powi k"
  by simp

lemma ulp_pos [simp]: "0 < ulp x"
  by (simp add: ulp_def)

lemma ulp_neq_0 [simp]: "ulp x \<noteq> 0"
  using ulp_pos [of x] by linarith

lemma ulp_abs [simp]: "\<bar>ulp x\<bar> = ulp x"
  using ulp_pos [of x] by linarith

lemma two_powi_not_le_0 [simp]: "\<not> (2::real) powi k \<le> 0"
  using two_powi_pos [of k] by linarith

lemma expo_ge: "emin \<le> expo x"
  by (simp add: expo_def)

lemma floor_log2_iff:
  assumes "0 < x"
  shows "\<lfloor>log 2 x\<rfloor> = k \<longleftrightarrow> 2 powi k \<le> x \<and> x < 2 powi (k + 1)"
proof -
  have a: "(2::real) powr real_of_int k = 2 powi k"
    by (rule powr_real_of_int') simp_all
  have "(2::real) powr real_of_int (k + 1) = 2 powi (k + 1)"
    by (rule powr_real_of_int') simp_all
  then have b: "(2::real) powr (real_of_int k + 1) = 2 powi (k + 1)"
    by simp
  show ?thesis
    using floor_log_eq_powr_iff [of x 2 k] assms a b by auto
qed

lemma two_powi_less_cancel: "(2::real) powi m < 2 powi n \<Longrightarrow> m < n"
proof (rule ccontr)
  assume lt: "(2::real) powi m < 2 powi n" and "\<not> m < n"
  then have "n \<le> m" by simp
  then have "(2::real) powi n \<le> 2 powi m" by (rule power_int_increasing) simp
  with lt show False by simp
qed

lemma expo_normal:
  assumes "emin \<le> k" "2 powi k \<le> \<bar>x\<bar>" "\<bar>x\<bar> < 2 powi (k + 1)"
  shows "expo x = k"
proof -
  have pos: "0 < \<bar>x\<bar>" using assms(2) two_powi_pos [of k] by linarith
  have "\<lfloor>log 2 \<bar>x\<bar>\<rfloor> = k"
    using assms(2,3) by (simp only: floor_log2_iff [OF pos])
  then show ?thesis using assms(1) by (simp add: expo_def)
qed

lemma floor_log2_bounds:
  assumes "0 < x"
  shows "2 powi \<lfloor>log 2 x\<rfloor> \<le> x" "x < 2 powi (\<lfloor>log 2 x\<rfloor> + 1)"
  using floor_log2_iff [OF assms, of "\<lfloor>log 2 x\<rfloor>"] by simp_all

lemma expo_subnormal:
  assumes "x \<noteq> 0" "\<bar>x\<bar> < 2 powi emin"
  shows "expo x = emin"
proof -
  have pos: "0 < \<bar>x\<bar>" using assms(1) by simp
  have "2 powi \<lfloor>log 2 \<bar>x\<bar>\<rfloor> \<le> \<bar>x\<bar>"
    by (rule floor_log2_bounds [OF pos])
  with assms(2) have "(2::real) powi \<lfloor>log 2 \<bar>x\<bar>\<rfloor> < 2 powi emin" by linarith
  then have "\<lfloor>log 2 \<bar>x\<bar>\<rfloor> < emin" by (rule two_powi_less_cancel)
  then show ?thesis by (simp add: expo_def)
qed

lemma expo_bounds:
  assumes "2 powi emin \<le> \<bar>x\<bar>"
  shows "2 powi expo x \<le> \<bar>x\<bar>" "\<bar>x\<bar> < 2 powi (expo x + 1)"
proof -
  have pos: "0 < \<bar>x\<bar>" using assms two_powi_pos [of emin] by linarith
  note k = floor_log2_bounds [OF pos]
  from assms k(2) have "(2::real) powi emin < 2 powi (\<lfloor>log 2 \<bar>x\<bar>\<rfloor> + 1)" by linarith
  then have "emin < \<lfloor>log 2 \<bar>x\<bar>\<rfloor> + 1" by (rule two_powi_less_cancel)
  then have e: "expo x = \<lfloor>log 2 \<bar>x\<bar>\<rfloor>" by (simp add: expo_def)
  show "2 powi expo x \<le> \<bar>x\<bar>" "\<bar>x\<bar> < 2 powi (expo x + 1)"
    using k by (simp_all only: e)
qed

lemma expo_upper:
  assumes "x \<noteq> 0"
  shows "\<bar>x\<bar> < 2 powi (expo x + 1)"
proof (cases "2 powi emin \<le> \<bar>x\<bar>")
  case True
  then show ?thesis by (rule expo_bounds)
next
  case False
  then have lt: "\<bar>x\<bar> < 2 powi emin" by simp
  then have "expo x = emin" using assms by (simp add: expo_subnormal)
  moreover have "(2::real) powi emin \<le> 2 powi (emin + 1)"
    by (rule power_int_increasing) simp_all
  ultimately show ?thesis using lt by simp
qed

lemma round_even_minus: "round_even (- y) = - round_even y"
proof (cases "y = of_int \<lfloor>y\<rfloor>")
  case True
  then obtain n where y: "y = of_int n" by blast
  have "round_even (of_int (- n)) = - n" by (rule round_even_of_int)
  then show ?thesis by (simp add: y)
next
  case False
  then have lt: "of_int \<lfloor>y\<rfloor> < y"
    using of_int_floor_le [of y] by (metis less_le)
  have f: "\<lfloor>- y\<rfloor> = - \<lfloor>y\<rfloor> - 1"
    using lt by (simp add: floor_eq_iff) linarith
  show ?thesis
    using lt by (auto simp: round_even_def Let_def f)
qed

lemma round_even_eq_0_iff: "round_even y = 0 \<longleftrightarrow> \<bar>y\<bar> \<le> 1 / 2"
proof
  assume "round_even y = 0"
  with round_even_diff [of y] show "\<bar>y\<bar> \<le> 1 / 2" by simp
next
  assume y: "\<bar>y\<bar> \<le> 1 / 2"
  then have "\<lfloor>y\<rfloor> = 0 \<or> \<lfloor>y\<rfloor> = - 1" by (simp add: floor_eq_iff abs_le_iff) linarith
  then show "round_even y = 0"
    unfolding round_even_def Let_def using y by (auto simp: abs_le_iff)
qed

lemma expo_minus [simp]: "expo (- x) = expo x"
  by (simp add: expo_def)

lemma ulp_minus [simp]: "ulp (- x) = ulp x"
  by (simp add: ulp_def)

lemma rd_0 [simp]: "rd 0 = 0"
  by (simp add: rd_def)

lemma rd_minus: "rd (- x) = - rd x"
  by (simp add: rd_def round_even_minus)

lemma rd_err: "\<bar>rd x - x\<bar> \<le> ulp x / 2"
proof (cases "x = 0")
  case True
  then show ?thesis by (simp add: less_imp_le)
next
  case False
  have "rd x - x = (of_int (round_even (x / ulp x)) - x / ulp x) * ulp x"
    using False by (simp add: rd_def algebra_simps)
  then have "\<bar>rd x - x\<bar> = \<bar>of_int (round_even (x / ulp x)) - x / ulp x\<bar> * ulp x"
    by (simp add: abs_mult)
  also have "\<dots> \<le> 1 / 2 * ulp x"
    by (rule mult_right_mono [OF round_even_diff]) (simp add: less_imp_le)
  finally show ?thesis by simp
qed

lemma rd_nonneg: "0 \<le> x \<Longrightarrow> 0 \<le> rd x"
proof -
  assume "0 \<le> x"
  then have "of_int 0 \<le> x / ulp x" by (simp add: less_imp_le)
  then have "0 \<le> round_even (x / ulp x)" by (rule round_even_ge)
  then show ?thesis by (simp add: rd_def less_imp_le)
qed

lemma rd_nonpos: "x \<le> 0 \<Longrightarrow> rd x \<le> 0"
  using rd_nonneg [of "- x"] by (simp add: rd_minus)

lemma rd_fix: "x = of_int n * ulp x \<Longrightarrow> rd x = x"
proof -
  assume x: "x = of_int n * ulp x"
  then have "x / ulp x = of_int n"
    by (metis nonzero_mult_div_cancel_right ulp_pos less_irrefl)
  then show ?thesis using x by (simp add: rd_def)
qed

lemma rd_grid: "rd v = v \<Longrightarrow> \<exists>n. v = of_int n * ulp v"
  by (cases "v = 0") (auto simp: rd_def intro: exI [of _ 0] dest: sym)

lemma rd_ge_pow:
  assumes "emin \<le> k" "2 powi k \<le> x"
  shows "2 powi k \<le> rd x"
proof -
  have pos: "0 < x" using assms(2) two_powi_pos [of k] by linarith
  have "(2::real) powi emin \<le> 2 powi k"
    using assms(1) by (rule power_int_increasing) simp
  with assms(2) pos have n: "2 powi emin \<le> \<bar>x\<bar>" by simp
  note e = expo_bounds [OF n]
  from assms(2) e(2) pos have "(2::real) powi k < 2 powi (expo x + 1)" by simp
  then have "k < expo x + 1" by (rule two_powi_less_cancel)
  then have ke: "(2::real) powi k \<le> 2 powi expo x"
    by (intro power_int_increasing) simp_all
  have "(2::real) powi expo x = 2 powi 52 * ulp x"
    by (simp add: ulp_def power_int_diff)
  with e(1) pos have "of_int (2 ^ 52) \<le> x / ulp x"
    by (simp add: pos_le_divide_eq)
  then have "2 ^ 52 \<le> round_even (x / ulp x)" by (rule round_even_ge)
  then have "(2::real) ^ 52 \<le> of_int (round_even (x / ulp x))"
    by (metis of_int_le_iff of_int_numeral of_int_power)
  then have "2 ^ 52 * ulp x \<le> of_int (round_even (x / ulp x)) * ulp x"
    by (rule mult_right_mono) (simp add: less_imp_le)
  then have "2 powi expo x \<le> rd x"
    using pos by (simp add: rd_def ulp_def power_int_diff)
  with ke show ?thesis by linarith
qed

lemma rd_eq_0_iff: "rd x = 0 \<longleftrightarrow> \<bar>x\<bar> \<le> 2 powi (emin - 53)"
proof (cases "x = 0")
  case True
  then show ?thesis by (simp add: less_imp_le)
next
  case nz: False
  show ?thesis
  proof (cases "2 powi emin \<le> \<bar>x\<bar>")
    case True
    have "2 powi emin \<le> \<bar>rd x\<bar>"
    proof (cases "0 \<le> x")
      case True
      with \<open>2 powi emin \<le> \<bar>x\<bar>\<close> have "2 powi emin \<le> rd x"
        by (intro rd_ge_pow) simp_all
      then show ?thesis by simp
    next
      case False
      with \<open>2 powi emin \<le> \<bar>x\<bar>\<close> have "2 powi emin \<le> rd (- x)"
        by (intro rd_ge_pow) simp_all
      then show ?thesis by (simp add: rd_minus)
    qed
    then have "rd x \<noteq> 0" using two_powi_pos [of emin] by auto
    moreover have "(2::real) powi (emin - 53) < 2 powi emin"
      by (rule power_int_strict_increasing) simp_all
    ultimately show ?thesis using True by simp
  next
    case False
    then have "expo x = emin" using nz by (simp add: expo_subnormal)
    then have u: "ulp x = 2 * 2 powi (emin - 53)"
      by (simp add: ulp_def power_int_diff)
    have "rd x = 0 \<longleftrightarrow> round_even (x / ulp x) = 0"
      using nz by (simp add: rd_def)
    also have "\<dots> \<longleftrightarrow> \<bar>x\<bar> / ulp x \<le> 1 / 2"
      by (simp add: round_even_eq_0_iff)
    also have "\<dots> \<longleftrightarrow> \<bar>x\<bar> \<le> 2 powi (emin - 53)"
      by (simp add: u field_simps)
    finally show ?thesis .
  qed
qed

lemma rd_close:
  assumes "0 < t" "t < 2 powi k" "emin < k" "rd x = t"
  shows "\<bar>x - t\<bar> \<le> 2 powi (k - 54)"
proof -
  have pos: "0 < x"
    using assms(1,4) rd_nonpos [of x] by (cases "0 < x") simp_all
  have "expo x < k"
  proof (rule ccontr)
    assume "\<not> expo x < k"
    then have ge: "k \<le> expo x" by simp
    with assms(3) have "emin < expo x" by simp
    then have "2 powi emin \<le> \<bar>x\<bar>"
      using expo_subnormal [of x] pos by (cases "2 powi emin \<le> \<bar>x\<bar>") simp_all
    then have "2 powi expo x \<le> x" using expo_bounds(1) [of x] pos by simp
    then have "2 powi expo x \<le> rd x" using expo_ge by (intro rd_ge_pow)
    moreover have "(2::real) powi k \<le> 2 powi expo x"
      using ge by (intro power_int_increasing) simp_all
    ultimately show False using assms(2,4) by simp
  qed
  then have "ulp x \<le> 2 powi (k - 53)"
    unfolding ulp_def by (intro power_int_increasing) simp_all
  moreover have "(2::real) powi (k - 53) = 2 * 2 powi (k - 54)"
    by (simp add: power_int_diff)
  ultimately show ?thesis using rd_err [of x] assms(4) by (simp add: abs_minus_commute)
qed

lemma emin_less_0: "emin < 0" "emin < 1" "emin < 2" "emin \<le> 0" "emin \<le> 1" "emin \<le> 2" "emin \<le> - 1"
  by (simp_all add: emin_def)

lemma rd_exact:
  assumes "emin \<le> k" "2 powi k \<le> \<bar>x\<bar>" "\<bar>x\<bar> < 2 powi (k + 1)"
    and "x = of_int n * 2 powi (k - 52)"
  shows "rd x = x"
proof -
  have "expo x = k" using assms(1-3) by (rule expo_normal)
  then have "ulp x = 2 powi (k - 52)" by (simp add: ulp_def)
  with assms(4) show ?thesis by (intro rd_fix [of x n]) simp
qed

lemma double_grid:
  assumes "is_double v" "emin \<le> k" "2 powi k \<le> \<bar>v\<bar>" "\<bar>v\<bar> < 2 powi (k + 1)"
  shows "\<exists>n. v = of_int n * 2 powi (k - 52)"
proof -
  have "expo v = k" using assms(2-4) by (rule expo_normal)
  then have "ulp v = 2 powi (k - 52)" by (simp add: ulp_def)
  with rd_grid [of v] assms(1) show ?thesis by (simp add: is_double_def)
qed

lemma MathPI_bounds: "3 < MathPI" "MathPI < 4"
  by (simp_all add: MathPI_def)

lemma quotient_zero_iff:
  assumes "is_double v"
  shows "fdiv v MathPI = 0 \<longleftrightarrow> \<bar>v\<bar> \<le> 2 powi (emin - 52)"
proof -
  have p: "(2::real) powi (emin - 52) = 2 * 2 powi (emin - 53)"
    by (simp add: power_int_diff)
  have q: "fdiv v MathPI = 0 \<longleftrightarrow> \<bar>v\<bar> \<le> MathPI * 2 powi (emin - 53)"
    using MathPI_bounds by (simp add: fdiv_def rd_eq_0_iff field_simps)
  show ?thesis
  proof
    assume "\<bar>v\<bar> \<le> 2 powi (emin - 52)"
    moreover have "2 * 2 powi (emin - 53) \<le> MathPI * 2 powi (emin - 53)"
      using MathPI_bounds by (intro mult_right_mono) simp_all
    ultimately have "\<bar>v\<bar> \<le> MathPI * 2 powi (emin - 53)" using p by linarith
    then show "fdiv v MathPI = 0" by (simp only: q)
  next
    assume "fdiv v MathPI = 0"
    then have le: "\<bar>v\<bar> \<le> MathPI * 2 powi (emin - 53)" by (simp add: q)
    have "MathPI * 2 powi (emin - 53) < 4 * 2 powi (emin - 53)"
      using MathPI_bounds by (intro mult_strict_right_mono) simp_all
    also have "\<dots> = 2 powi (emin - 51)" by (simp add: power_int_diff)
    also have "\<dots> < 2 powi emin" by (rule power_int_strict_increasing) simp_all
    finally have sub: "\<bar>v\<bar> < 2 powi emin" using le by simp
    show "\<bar>v\<bar> \<le> 2 powi (emin - 52)"
    proof (cases "v = 0")
      case True
      then show ?thesis by simp
    next
      case False
      with sub have "expo v = emin" by (simp add: expo_subnormal)
      then have u: "ulp v = 2 powi (emin - 52)" by (simp add: ulp_def)
      from rd_grid [of v] assms obtain n where n: "v = of_int n * 2 powi (emin - 52)"
        by (auto simp: is_double_def u)
      have "\<bar>v\<bar> = \<bar>real_of_int n\<bar> * 2 powi (emin - 52)"
        by (subst n) (simp add: abs_mult)
      with le have "\<bar>real_of_int n\<bar> * (2 * 2 powi (emin - 53)) \<le> MathPI * 2 powi (emin - 53)"
        by (simp add: p)
      then have "\<bar>real_of_int n\<bar> * 2 \<le> MathPI" by simp
      with MathPI_bounds have "\<bar>real_of_int n\<bar> < 2" by simp
      then have "\<bar>n\<bar> < 2" by linarith
      then have "\<bar>real_of_int n\<bar> \<le> 1" by simp
      then have "\<bar>real_of_int n\<bar> * 2 powi (emin - 52) \<le> 1 * 2 powi (emin - 52)"
        by (intro mult_right_mono) simp_all
      then show ?thesis by (simp add: \<open>\<bar>v\<bar> = \<bar>real_of_int n\<bar> * 2 powi (emin - 52)\<close>)
    qed
  qed
qed

lemma quotient_tick_iff:
  assumes v: "is_double v"
    and t: "0 < t" "t < 2 powi k" "emin < k" "rd t = t"
    and j: "emin \<le> j" "2 powi j \<le> t * MathPI - MathPI * 2 powi (k - 54)"
      "t * MathPI + MathPI * 2 powi (k - 54) < 2 powi (j + 1)"
    and M: "t * MathPI = of_int M * 2 powi (j - 52)"
    and d: "MathPI * 2 powi (k - 54) < 2 powi (j - 52)"
  shows "fdiv v MathPI = t \<longleftrightarrow> v = t * MathPI"
proof
  assume "v = t * MathPI"
  then show "fdiv v MathPI = t" using MathPI_bounds t(4) by (simp add: fdiv_def)
next
  assume "fdiv v MathPI = t"
  then have "\<bar>v / MathPI - t\<bar> \<le> 2 powi (k - 54)"
    using t by (intro rd_close) (simp_all add: fdiv_def)
  then have "\<bar>v / MathPI - t\<bar> * MathPI \<le> 2 powi (k - 54) * MathPI"
    using MathPI_bounds by (intro mult_right_mono) simp_all
  moreover have "v / MathPI - t = (v - t * MathPI) / MathPI"
    using MathPI_bounds by (simp add: diff_divide_distrib)
  then have "\<bar>v / MathPI - t\<bar> * MathPI = \<bar>v - t * MathPI\<bar>"
    using MathPI_bounds by (simp add: abs_divide)
  ultimately have close: "\<bar>v - t * MathPI\<bar> \<le> MathPI * 2 powi (k - 54)"
    by (simp only: mult.commute)
  have jpos: "0 < (2::real) powi j" by simp
  from close j(2) jpos have lo: "2 powi j \<le> \<bar>v\<bar>" by linarith
  from close j(2,3) jpos have hi: "\<bar>v\<bar> < 2 powi (j + 1)" by linarith
  from double_grid [OF v j(1) lo hi] obtain n where n: "v = of_int n * 2 powi (j - 52)" ..
  have "v - t * MathPI = real_of_int (n - M) * 2 powi (j - 52)"
    by (simp only: n M of_int_diff left_diff_distrib)
  then have "\<bar>v - t * MathPI\<bar> = \<bar>real_of_int (n - M)\<bar> * 2 powi (j - 52)"
    by (simp only: abs_mult) simp
  with close d have "\<bar>real_of_int (n - M)\<bar> * 2 powi (j - 52) < 1 * 2 powi (j - 52)"
    by linarith
  then have "\<bar>real_of_int (n - M)\<bar> < 1"
    by (simp only: mult_less_cancel_right_pos two_powi_pos)
  then have "n = M" by linarith
  then show "v = t * MathPI" by (simp only: n M)
qed

lemma rd_half: "rd (1 / 2) = 1 / 2"
  by (rule rd_exact [of "- 1" _ "2 ^ 52"]) (simp_all add: emin_def)

lemma rd_one: "rd 1 = 1"
  by (rule rd_exact [of 0 _ "2 ^ 52"]) (simp_all add: emin_def)

lemma rd_three_halves: "rd (3 / 2) = 3 / 2"
  by (rule rd_exact [of 0 _ "3 * 2 ^ 51"]) (simp_all add: emin_def)

lemma rd_two: "rd 2 = 2"
  by (rule rd_exact [of 1 _ "2 ^ 52"]) (simp_all add: emin_def)

lemma rd_MathPI: "rd MathPI = MathPI"
  by (rule rd_exact [of 1 _ "8 * 884279719003555"]) (simp_all add: emin_def MathPI_def)

lemma rd_half_MathPI: "rd (MathPI / 2) = MathPI / 2"
  by (rule rd_exact [of 0 _ "8 * 884279719003555"]) (simp_all add: emin_def MathPI_def)

lemma rd_three_MathPI: "rd (3 * MathPI) = 3 * MathPI"
  by (rule rd_exact [of 3 _ "6 * 884279719003555"]) (simp_all add: emin_def MathPI_def)

lemma rd_three_halves_MathPI: "rd (3 * MathPI / 2) = 3 * MathPI / 2"
  by (rule rd_exact [of 2 _ "6 * 884279719003555"]) (simp_all add: emin_def MathPI_def)

lemma rd_two_MathPI: "rd (2 * MathPI) = 2 * MathPI"
  by (rule rd_exact [of 2 _ "8 * 884279719003555"]) (simp_all add: emin_def MathPI_def)

lemma quotient_half_iff:
  "is_double v \<Longrightarrow> fdiv v MathPI = 1 / 2 \<longleftrightarrow> v = MathPI / 2"
  using quotient_tick_iff [of v "1 / 2" 0 0 "8 * 884279719003555"]
  by (simp add: rd_half emin_def MathPI_def)

lemma quotient_one_iff:
  "is_double v \<Longrightarrow> fdiv v MathPI = 1 \<longleftrightarrow> v = MathPI"
  using quotient_tick_iff [of v 1 1 1 "8 * 884279719003555"]
  by (simp add: rd_one emin_def MathPI_def)

lemma quotient_three_halves_iff:
  "is_double v \<Longrightarrow> fdiv v MathPI = 3 / 2 \<longleftrightarrow> v = 3 * MathPI / 2"
  using quotient_tick_iff [of v "3 / 2" 1 2 "6 * 884279719003555"]
  by (simp add: rd_three_halves emin_def MathPI_def)

lemma quotient_two_iff:
  "is_double v \<Longrightarrow> fdiv v MathPI = 2 \<longleftrightarrow> v = 2 * MathPI"
  using quotient_tick_iff [of v 2 2 2 "8 * 884279719003555"]
  by (simp add: rd_two emin_def MathPI_def)

lemma ticks_eq: "ticks = [0, MathPI / 2, MathPI, 3 * MathPI / 2, 2 * MathPI]"
  by (simp add: ticks_def fdiv_def fmul_def rd_half_MathPI rd_three_MathPI rd_three_halves_MathPI
      rd_two_MathPI)

lemma formatXAxis_cases:
  assumes "is_double v"
  shows "formatXAxis v =
     (if \<bar>v\<bar> \<le> 2 powi (emin - 52) then ''0''
      else if v = MathPI / 2 then pi_str @ ''/2''
      else if v = MathPI then pi_str
      else if v = 3 * MathPI / 2 then ''3'' @ pi_str @ ''/2''
      else if v = 2 * MathPI then ''2'' @ pi_str
      else '''')"
proof -
  have a: "(0.5::real) = 1 / 2" "(1.5::real) = 3 / 2" by simp_all
  show ?thesis
    unfolding formatXAxis_def Let_def a
    by (simp only: quotient_zero_iff [OF assms] quotient_half_iff [OF assms]
        quotient_one_iff [OF assms] quotient_three_halves_iff [OF assms]
        quotient_two_iff [OF assms])
qed

lemma is_double_ticks: "\<forall>v \<in> set ticks. is_double v"
  by (simp add: ticks_eq is_double_def rd_half_MathPI rd_MathPI rd_three_halves_MathPI rd_two_MathPI)

lemma tiny_small: "(2::real) powi (emin - 52) \<le> 1 / 4"
proof -
  have "(2::real) powi (emin - 52) \<le> 2 powi (- 2)"
    by (rule power_int_increasing) (simp_all add: emin_def)
  then show ?thesis by simp
qed

section \<open>The claims\<close>

text \<open>
  Throughout, \<open>sin (2 * pi * real i / real_of_int resolution + phaseShift
  + 2 * pi * real b / real_of_int numBlades)\<close> is the raw value of sample \<open>i\<close> and
  blade \<open>b\<close>, the key \<open>BladeKey b\<close> of a point holds its stored value for blade
  \<open>b\<close> and the key \<open>SumKey\<close> its sum field. All equalities are equalities of real
  numbers.
\<close>

subsection \<open>C1: inputs that are not positive\<close>

text \<open>
  Claim C1 says that \<open>generateData\<close> fails with a validation error when
  \<open>bladeCount \<le> 0\<close> or \<open>resolution \<le> 0\<close> and never returns a dataset then. The
  source has no check of its inputs and no \<open>throw\<close>: with no blade and no sample
  it returns two empty datasets, and with no blade and one sample it returns two
  datasets of one point each, labelled \<open>0.00\<close> and the letter pi, with the sum \<open>0\<close>
  and no blade value.
\<close>

theorem invalid_input_returns:
  "generateData 0 0 0 False = \<lparr>sinData = [], sin2Data = []\<rparr>
   \<and> generateData 0 0 1 False =
       \<lparr>sinData = [\<lparr>theta = 0, thetaLabel = ''0.00'' @ pi_str, props = [SumKey \<mapsto> 0]\<rparr>],
        sin2Data = [\<lparr>theta = 0, thetaLabel = ''0.00'' @ pi_str, props = [SumKey \<mapsto> 0]\<rparr>]\<rparr>"
  by (simp add: generateData_eq point_of_def blade_props_0 sin_total_def sin2_total_def
      toFixed2_0)

text \<open>
  Claim C1, amended. For an input with \<open>resolution \<le> 0\<close> the function returns the
  two empty datasets; for an input with \<open>bladeCount \<le> 0\<close> and \<open>resolution > 0\<close> it
  returns two datasets of \<open>resolution\<close> points each, and every point has the sum
  \<open>0\<close> as its only dynamic key. Either way it returns, with or without
  \<open>subtractMean\<close>.
\<close>

theorem no_validation:
  "(resolution \<le> 0 \<longrightarrow>
      generateData numBlades phaseShift resolution subtractMean = \<lparr>sinData = [], sin2Data = []\<rparr>)
   \<and> (numBlades \<le> 0 \<and> 0 < resolution \<longrightarrow>
      length (sinData (generateData numBlades phaseShift resolution subtractMean)) = nat resolution
      \<and> length (sin2Data (generateData numBlades phaseShift resolution subtractMean)) = nat resolution
      \<and> (\<forall>i<nat resolution.
            props (sinData (generateData numBlades phaseShift resolution subtractMean) ! i) = [SumKey \<mapsto> 0]
          \<and> props (sin2Data (generateData numBlades phaseShift resolution subtractMean) ! i) = [SumKey \<mapsto> 0]))"
  by (simp add: generateData_eq point_of_def blade_props_0 sin_total_def sin2_total_def)

theorem no_validation_witness:
  "(0::int) \<le> 0
   \<and> generateData 3 1 0 True = \<lparr>sinData = [], sin2Data = []\<rparr>
   \<and> (- 2::int) \<le> 0 \<and> (0::int) < 2
   \<and> length (sinData (generateData (- 2) 1 2 True)) = 2
   \<and> length (sin2Data (generateData (- 2) 1 2 True)) = 2
   \<and> props (sinData (generateData (- 2) 1 2 True) ! 1) = [SumKey \<mapsto> 0]
   \<and> props (sin2Data (generateData (- 2) 1 2 True) ! 1) = [SumKey \<mapsto> 0]"
  using no_validation [of 0 3 1 True] no_validation [of 2 "- 2" 1 True] by simp

subsection \<open>C2: angles and raw values\<close>

text \<open>
  Claim C2. For \<open>bladeCount > 0\<close>, \<open>resolution > 0\<close>, a sample index \<open>i\<close> below
  \<open>resolution\<close> and a blade index \<open>b\<close> below \<open>bladeCount\<close>: the angle of sample
  \<open>i\<close> is \<open>2 pi i / resolution\<close> in both datasets; the sine value that the first
  pass computes for \<open>i\<close> and \<open>b\<close> is the sine of that angle plus \<open>phaseShift\<close>
  plus \<open>2 pi b / bladeCount\<close>, and the squared value is its square. These raw
  values are the ones of lines 41 to 51, kept in \<open>bladeDataSin\<close> and
  \<open>bladeDataSin2\<close>; without \<open>subtractMean\<close> they are also the values stored in
  the points.
\<close>

theorem raw_values:
  assumes "0 < numBlades" "0 < resolution" "i < nat resolution" "b < nat numBlades"
  shows "theta (sinData (generateData numBlades phaseShift resolution subtractMean) ! i)
           = 2 * pi * real i / real_of_int resolution
       \<and> theta (sin2Data (generateData numBlades phaseShift resolution subtractMean) ! i)
           = 2 * pi * real i / real_of_int resolution
       \<and> bladeDataSin (first_pass numBlades phaseShift resolution) ! b ! i
           = sin (2 * pi * real i / real_of_int resolution + phaseShift
                  + 2 * pi * real b / real_of_int numBlades)
       \<and> bladeDataSin2 (first_pass numBlades phaseShift resolution) ! b ! i
           = (sin (2 * pi * real i / real_of_int resolution + phaseShift
                   + 2 * pi * real b / real_of_int numBlades))\<^sup>2
       \<and> props (sinData (generateData numBlades phaseShift resolution False) ! i) (BladeKey b)
           = Some (sin (2 * pi * real i / real_of_int resolution + phaseShift
                        + 2 * pi * real b / real_of_int numBlades))
       \<and> props (sin2Data (generateData numBlades phaseShift resolution False) ! i) (BladeKey b)
           = Some ((sin (2 * pi * real i / real_of_int resolution + phaseShift
                         + 2 * pi * real b / real_of_int numBlades))\<^sup>2)"
  using assms
  by (simp add: sinData_nth sin2Data_nth point_of_theta point_of_blade
      bladeDataSin_nth bladeDataSin2_nth sin_value_def sin2_value_def raw_sin_flat)

theorem raw_values_witness:
  "0 < (2::int) \<and> 0 < (4::int) \<and> (0::nat) < nat 4 \<and> (1::nat) < nat 2
   \<and> theta (sinData (generateData 2 0 4 True) ! 0) = 0
   \<and> theta (sin2Data (generateData 2 0 4 True) ! 0) = 0
   \<and> bladeDataSin (first_pass 2 0 4) ! 1 ! 0 = 0
   \<and> bladeDataSin2 (first_pass 2 0 4) ! 1 ! 0 = 0
   \<and> props (sinData (generateData 2 0 4 False) ! 0) (BladeKey 1) = Some 0
   \<and> props (sin2Data (generateData 2 0 4 False) ! 0) (BladeKey 1) = Some 0"
  using raw_values [of 2 4 0 1 0 True] by simp

subsection \<open>C3: the sum field\<close>

text \<open>
  Claim C3. For a valid input and every sample \<open>i\<close> of either dataset, each blade
  below \<open>bladeCount\<close> has a stored value, and: without \<open>subtractMean\<close> the sum
  field is the sum over the blades of the stored values; with \<open>subtractMean\<close> it
  is the sum over the blades of the raw values of sample \<open>i\<close>, minus the mean over
  all samples of these per-sample sums.
\<close>

theorem sum_field:
  assumes "0 < numBlades" "0 < resolution" "i < nat resolution"
  shows "(\<forall>b<nat numBlades.
            props (sinData (generateData numBlades phaseShift resolution subtractMean) ! i) (BladeKey b) \<noteq> None
          \<and> props (sin2Data (generateData numBlades phaseShift resolution subtractMean) ! i) (BladeKey b) \<noteq> None)
       \<and> (\<not> subtractMean \<longrightarrow>
            props (sinData (generateData numBlades phaseShift resolution subtractMean) ! i) SumKey
              = Some (\<Sum>b<nat numBlades.
                  the (props (sinData (generateData numBlades phaseShift resolution subtractMean) ! i) (BladeKey b)))
          \<and> props (sin2Data (generateData numBlades phaseShift resolution subtractMean) ! i) SumKey
              = Some (\<Sum>b<nat numBlades.
                  the (props (sin2Data (generateData numBlades phaseShift resolution subtractMean) ! i) (BladeKey b))))
       \<and> (subtractMean \<longrightarrow>
            props (sinData (generateData numBlades phaseShift resolution subtractMean) ! i) SumKey
              = Some ((\<Sum>b<nat numBlades.
                         sin (2 * pi * real i / real_of_int resolution + phaseShift
                              + 2 * pi * real b / real_of_int numBlades))
                      - (\<Sum>j<nat resolution. \<Sum>b<nat numBlades.
                           sin (2 * pi * real j / real_of_int resolution + phaseShift
                                + 2 * pi * real b / real_of_int numBlades))
                        / real_of_int resolution)
          \<and> props (sin2Data (generateData numBlades phaseShift resolution subtractMean) ! i) SumKey
              = Some ((\<Sum>b<nat numBlades.
                         (sin (2 * pi * real i / real_of_int resolution + phaseShift
                               + 2 * pi * real b / real_of_int numBlades))\<^sup>2)
                      - (\<Sum>j<nat resolution. \<Sum>b<nat numBlades.
                           (sin (2 * pi * real j / real_of_int resolution + phaseShift
                                 + 2 * pi * real b / real_of_int numBlades))\<^sup>2)
                        / real_of_int resolution))"
  using assms
  by (simp add: sinData_nth sin2Data_nth point_of_blade point_of_sum
      sin_total_def sin2_total_def sin_value_def sin2_value_def raw_sin_flat)

theorem sum_field_witness:
  "0 < (1::int) \<and> 0 < (1::int) \<and> (0::nat) < nat 1
   \<and> props (sinData (generateData 1 (pi / 2) 1 False) ! 0) SumKey = Some 1
   \<and> props (sin2Data (generateData 1 (pi / 2) 1 False) ! 0) SumKey = Some 1
   \<and> props (sinData (generateData 1 (pi / 2) 1 True) ! 0) SumKey = Some 0
   \<and> props (sin2Data (generateData 1 (pi / 2) 1 True) ! 0) SumKey = Some 0"
proof -
  have b: "props (sinData (generateData 1 (pi / 2) 1 False) ! 0) (BladeKey 0) = Some 1"
    "props (sin2Data (generateData 1 (pi / 2) 1 False) ! 0) (BladeKey 0) = Some 1"
    by (simp_all add: sinData_nth sin2Data_nth point_of_blade sin_value_def sin2_value_def
        raw_sin_def)
  show ?thesis
    using sum_field [of 1 1 0 "pi / 2" False] sum_field [of 1 1 0 "pi / 2" True] b
    by simp
qed

subsection \<open>C4: length and order\<close>

text \<open>
  Claim C4. For \<open>resolution > 0\<close> (and any blade count, phase shift and
  \<open>subtractMean\<close>) both datasets have exactly \<open>resolution\<close> points, and the angles
  of their points increase strictly along the list.
\<close>

theorem dataset_length_order:
  assumes "0 < resolution"
  shows "length (sinData (generateData numBlades phaseShift resolution subtractMean)) = nat resolution
       \<and> length (sin2Data (generateData numBlades phaseShift resolution subtractMean)) = nat resolution
       \<and> sorted_wrt (<) (map theta (sinData (generateData numBlades phaseShift resolution subtractMean)))
       \<and> sorted_wrt (<) (map theta (sin2Data (generateData numBlades phaseShift resolution subtractMean)))"
proof -
  have "sorted_wrt (<) (map (\<lambda>i. 2 * pi * real i / real_of_int resolution) [0..<n])" for n
    using assms
    by (simp add: sorted_wrt_map sorted_wrt_iff_nth_less divide_strict_right_mono)
  then show ?thesis
    by (simp add: generateData_eq comp_def point_of_theta)
qed

theorem dataset_length_order_witness:
  "0 < (4::int)
   \<and> length (sinData (generateData 3 0 4 True)) = 4
   \<and> length (sin2Data (generateData 3 0 4 True)) = 4
   \<and> sorted_wrt (<) (map theta (sinData (generateData 3 0 4 True)))
   \<and> sorted_wrt (<) (map theta (sin2Data (generateData 3 0 4 True)))"
  using dataset_length_order [of 4 3 0 True] by simp

subsection \<open>C5: mean subtraction per blade\<close>

text \<open>
  Claim C5. For a valid input, sample \<open>i\<close> and blade \<open>b\<close>: with \<open>subtractMean\<close> the
  stored value is the raw value minus the sum of that blade's raw values over all
  samples divided by \<open>resolution\<close>; without it the stored value is the raw value.
  This holds for the sine dataset and, with squares, for the squared dataset.
\<close>

theorem stored_values:
  assumes "0 < numBlades" "0 < resolution" "i < nat resolution" "b < nat numBlades"
  shows "props (sinData (generateData numBlades phaseShift resolution subtractMean) ! i) (BladeKey b)
           = Some (if subtractMean
                   then sin (2 * pi * real i / real_of_int resolution + phaseShift
                             + 2 * pi * real b / real_of_int numBlades)
                        - (\<Sum>j<nat resolution.
                             sin (2 * pi * real j / real_of_int resolution + phaseShift
                                  + 2 * pi * real b / real_of_int numBlades))
                          / real_of_int resolution
                   else sin (2 * pi * real i / real_of_int resolution + phaseShift
                             + 2 * pi * real b / real_of_int numBlades))
       \<and> props (sin2Data (generateData numBlades phaseShift resolution subtractMean) ! i) (BladeKey b)
           = Some (if subtractMean
                   then (sin (2 * pi * real i / real_of_int resolution + phaseShift
                              + 2 * pi * real b / real_of_int numBlades))\<^sup>2
                        - (\<Sum>j<nat resolution.
                             (sin (2 * pi * real j / real_of_int resolution + phaseShift
                                   + 2 * pi * real b / real_of_int numBlades))\<^sup>2)
                          / real_of_int resolution
                   else (sin (2 * pi * real i / real_of_int resolution + phaseShift
                              + 2 * pi * real b / real_of_int numBlades))\<^sup>2)"
  using assms
  by (simp add: sinData_nth sin2Data_nth point_of_blade sin_value_def sin2_value_def raw_sin_flat)

theorem stored_values_witness:
  "0 < (1::int) \<and> 0 < (2::int) \<and> (1::nat) < nat 2 \<and> (0::nat) < nat 1
   \<and> props (sinData (generateData 1 0 2 True) ! 1) (BladeKey 0) = Some 0
   \<and> props (sin2Data (generateData 1 0 2 True) ! 1) (BladeKey 0) = Some 0"
  using stored_values [of 1 2 1 0 0 True] by (simp add: numeral_2_eq_2)

subsection \<open>C7: the squares add up to half the blade count\<close>




subsection \<open>C8: tick labels\<close>

text \<open>
  Claim C8 says that every angle other than the five tick positions gets the
  empty label. The smallest positive double, \<open>2\<^sup>-\<^sup>1\<^sup>0\<^sup>7\<^sup>4\<close> (about \<open>5e-324\<close>), is
  a double, is not \<open>0\<close> and is none of the tick positions, but its quotient by
  \<open>Math.PI\<close> rounds to \<open>0\<close>, and line 109 returns the label \<open>0\<close> for it.
\<close>

theorem formatXAxis_underflow:
  "is_double (2 powi (emin - 52)) \<and> 2 powi (emin - 52) \<noteq> (0::real)
   \<and> 2 powi (emin - 52) \<notin> set ticks
   \<and> fdiv (2 powi (emin - 52)) MathPI = 0
   \<and> formatXAxis (2 powi (emin - 52)) = ''0''"
proof -
  have sub: "\<bar>(2::real) powi (emin - 52)\<bar> < 2 powi emin"
    by (simp, rule power_int_strict_increasing) simp_all
  then have "expo (2 powi (emin - 52)) = emin" by (intro expo_subnormal) simp_all
  then have "ulp (2 powi (emin - 52)) = 2 powi (emin - 52)" by (simp add: ulp_def)
  then have d: "is_double (2 powi (emin - 52))"
    unfolding is_double_def by (intro rd_fix [of _ 1]) simp
  have t: "2 powi (emin - 52) \<notin> set ticks"
    using tiny_small MathPI_bounds two_powi_pos [of "emin - 52"] by (simp add: ticks_eq)
  show ?thesis
    using d t by (simp add: formatXAxis_cases quotient_zero_iff)
qed

text \<open>
  Claim C8, amended. \<open>formatXAxis\<close> maps the tick positions \<open>0\<close>, \<open>Math.PI/2\<close>,
  \<open>Math.PI\<close>, \<open>3*Math.PI/2\<close> and \<open>2*Math.PI\<close> to \<open>0\<close>, the letter pi followed by
  \<open>/2\<close>, the letter pi, \<open>3\<close> with the letter pi and \<open>/2\<close>, and \<open>2\<close> with the
  letter pi. Of all finite doubles, those of magnitude at most \<open>2\<^sup>-\<^sup>1\<^sup>0\<^sup>7\<^sup>4\<close> (zero
  and the smallest double of either sign) get the label \<open>0\<close>, the four other
  tick positions get their labels, and every other one gets the empty string.
\<close>

theorem formatXAxis_ticks:
  "map formatXAxis ticks = [''0'', pi_str @ ''/2'', pi_str, ''3'' @ pi_str @ ''/2'', ''2'' @ pi_str]
   \<and> (is_double v \<longrightarrow>
        formatXAxis v =
          (if \<bar>v\<bar> \<le> 2 powi (emin - 52) then ''0''
           else if v = MathPI / 2 then pi_str @ ''/2''
           else if v = MathPI then pi_str
           else if v = 3 * MathPI / 2 then ''3'' @ pi_str @ ''/2''
           else if v = 2 * MathPI then ''2'' @ pi_str
           else ''''))"
proof -
  have s: "\<not> \<bar>MathPI / 2\<bar> \<le> 2 powi (emin - 52)" "\<not> \<bar>MathPI\<bar> \<le> 2 powi (emin - 52)"
    "\<not> \<bar>3 * MathPI / 2\<bar> \<le> 2 powi (emin - 52)" "\<not> \<bar>2 * MathPI\<bar> \<le> 2 powi (emin - 52)"
    using tiny_small MathPI_bounds by linarith+
  have d: "is_double 0" "is_double (MathPI / 2)" "is_double MathPI" "is_double (3 * MathPI / 2)"
    "is_double (2 * MathPI)"
    using is_double_ticks by (simp_all add: ticks_eq)
  have ne: "MathPI \<noteq> MathPI / 2" "3 * MathPI / 2 \<noteq> MathPI / 2" "3 * MathPI / 2 \<noteq> MathPI"
    "2 * MathPI \<noteq> MathPI / 2" "2 * MathPI \<noteq> MathPI" "2 * MathPI \<noteq> 3 * MathPI / 2"
    using MathPI_bounds by linarith+
  have f: "formatXAxis 0 = ''0''" "formatXAxis (MathPI / 2) = pi_str @ ''/2''"
    "formatXAxis MathPI = pi_str" "formatXAxis (3 * MathPI / 2) = ''3'' @ pi_str @ ''/2''"
    "formatXAxis (2 * MathPI) = ''2'' @ pi_str"
    by (simp add: formatXAxis_cases [OF d(1)] less_imp_le,
        simp_all only: formatXAxis_cases [OF d(2)] formatXAxis_cases [OF d(3)]
          formatXAxis_cases [OF d(4)] formatXAxis_cases [OF d(5)] s ne if_False if_True
          HOL.simp_thms)
  have "map formatXAxis ticks = [''0'', pi_str @ ''/2'', pi_str, ''3'' @ pi_str @ ''/2'', ''2'' @ pi_str]"
    by (simp only: ticks_eq list.map f)
  then show ?thesis by (simp add: formatXAxis_cases)
qed

theorem formatXAxis_ticks_witness:
  "is_double (1 / 2) \<and> formatXAxis (1 / 2) = ''''"
proof -
  have d: "is_double (1 / 2)" by (simp add: is_double_def rd_half)
  have "\<not> \<bar>1 / 2 :: real\<bar> \<le> 2 powi (emin - 52)"
    using tiny_small by linarith
  moreover have "(1 / 2 :: real) \<noteq> MathPI / 2" "1 / 2 \<noteq> MathPI" "1 / 2 \<noteq> 3 * MathPI / 2"
    "1 / 2 \<noteq> 2 * MathPI"
    using MathPI_bounds by simp_all
  ultimately show ?thesis
    using formatXAxis_ticks [of "1 / 2"] d by simp
qed

subsection \<open>C9: the two versions agree\<close>

text \<open>
  Claim C9. Called with \<open>subtractMean = false\<close>, the current \<open>generateData\<close>
  returns exactly the pair of datasets that the earlier \<open>generateData\<close> (which
  has no \<open>subtractMean\<close>) returns: the same points, with the same angles,
  labels, per-blade values and sums, in the same order. This holds for every
  blade count, phase shift and resolution, valid or not.
\<close>

theorem generateData_refines_old:
  "generateData numBlades phaseShift resolution False
     = generateData_old numBlades phaseShift resolution"
  by (simp only: generateData_eq generateData_old_eq)

subsection \<open>C10: squared values are not negative\<close>

text \<open>
  Claim C10. Without \<open>subtractMean\<close>, every number stored under a dynamic key of a
  point of the squared dataset (the value of each blade, and the sum) is at least
  \<open>0\<close>.
\<close>

theorem squared_nonneg:
  assumes "i < nat resolution"
    and "props (sin2Data (generateData numBlades phaseShift resolution False) ! i) k = Some v"
  shows "0 \<le> v"
proof -
  from assms have "props (point_of numBlades resolution i
      (sin2_value numBlades phaseShift resolution False i)
      (sin2_total numBlades phaseShift resolution False i)) k = Some v"
    by (simp add: sin2Data_nth)
  then have "(\<exists>b<nat numBlades. k = BladeKey b \<and> v = sin2_value numBlades phaseShift resolution False i b)
      \<or> (k = SumKey \<and> v = sin2_total numBlades phaseShift resolution False i)"
    by (rule point_of_props_cases)
  then show ?thesis
    by (auto simp: sin2_value_def sin2_total_def intro: sum_nonneg)
qed

theorem squared_nonneg_witness:
  "(0::nat) < nat 1
   \<and> props (sin2Data (generateData 1 (pi / 2) 1 False) ! 0) SumKey = Some 1
   \<and> (0::real) \<le> 1"
proof -
  have p: "props (sin2Data (generateData 1 (pi / 2) 1 False) ! 0) SumKey = Some 1"
    by (simp add: sin2Data_nth point_of_sum sin2_total_def raw_sin_def)
  have i: "(0::nat) < nat 1" by simp
  from squared_nonneg [OF i p] i p show ?thesis by simp
qed

end
